theory Spec2Isabelle
  imports Complex_Main "HOL-Library.AList"
begin

section \<open>Python strings and integers\<close>

text \<open>
  Strings are byte strings here; \<open>str.lower\<close>, \<open>str.strip\<close> and \<open>int(str)\<close> are
  modelled on ASCII. \<open>int(s)\<close> strips surrounding whitespace, reads an optional sign and a
  non-empty run of decimal digits in which single underscores may separate digits; every
  other string raises \<open>ValueError\<close>, which is the value \<open>None\<close>. The bound that recent
  interpreters put on the number of digits is left out.
\<close>

definition is_space :: "char \<Rightarrow> bool" where
  "is_space c = (let n = (of_char c :: nat) in (9 \<le> n \<and> n \<le> 13) \<or> (28 \<le> n \<and> n \<le> 32))"

definition is_digit :: "char \<Rightarrow> bool" where
  "is_digit c = (let n = (of_char c :: nat) in 48 \<le> n \<and> n \<le> 57)"

definition digit_val :: "char \<Rightarrow> int" where
  "digit_val c = int (of_char c) - 48"

fun digits_val :: "string \<Rightarrow> int \<Rightarrow> bool \<Rightarrow> int option" where
  "digits_val [] acc ld = (if ld then Some acc else None)"
| "digits_val (c # cs) acc ld =
     (if is_digit c then digits_val cs (10 * acc + digit_val c) True
      else if c = CHR ''_'' \<and> ld then digits_val cs acc False
      else None)"

definition strip :: "string \<Rightarrow> string" where
  "strip s = rev (dropWhile is_space (rev (dropWhile is_space s)))"

definition py_int :: "string \<Rightarrow> int option" where
  "py_int s =
     (case strip s of
        [] \<Rightarrow> None
      | c # cs \<Rightarrow>
          if c = CHR ''-'' then map_option uminus (digits_val cs 0 False)
          else if c = CHR ''+'' then digits_val cs 0 False
          else digits_val (c # cs) 0 False)"

definition lower_char :: "char \<Rightarrow> char" where
  "lower_char c =
     (let n = (of_char c :: nat) in if 65 \<le> n \<and> n \<le> 90 then char_of (n + 32) else c)"

definition lower :: "string \<Rightarrow> string" where
  "lower s = map lower_char s"


section \<open>Configuration (config.py)\<close>

record settings =
  MASTER_LIST_POLL_INTERVAL_S :: int
  MASTER_LIST_MAX_BACKOFF_S :: int
  POLL_INTERVAL_ACTIVE_S :: int
  POLL_INTERVAL_EMPTY_S :: int
  POLL_INTERVAL_OFFLINE_S :: int
  OFFLINE_FAILURE_THRESHOLD :: int
  SERVER_QUERY_TIMEOUT_S :: rat
  WORKER_COUNT :: int

definition default_settings :: settings where
  "default_settings =
     \<lparr> MASTER_LIST_POLL_INTERVAL_S = 60, MASTER_LIST_MAX_BACKOFF_S = 300,
       POLL_INTERVAL_ACTIVE_S = 20, POLL_INTERVAL_EMPTY_S = 180,
       POLL_INTERVAL_OFFLINE_S = 900, OFFLINE_FAILURE_THRESHOLD = 3,
       SERVER_QUERY_TIMEOUT_S = 4, WORKER_COUNT = 200 \<rparr>"

section \<open>Scheduler: defensive parsing and the next-delay policy (scheduler.py)\<close>


type_synonym info_map = "string \<rightharpoonup> string"







section \<open>Querier (server\_querier.py)\<close>

text \<open>
  One \<open>get_status\<close> attempt is a call of the network \<open>gs\<close> with the number of attempts
  already made, the host, the port and the timeout; \<open>None\<close> is any exception of the
  attempt. The function returns the result and the attempts it made, in order.
  The timeout is a float in the source; halving is exact, so a rational carries it.
\<close>

type_synonym attempt = "string \<times> int \<times> rat"

definition query_server ::
  "settings \<Rightarrow> (nat \<Rightarrow> string \<Rightarrow> int \<Rightarrow> rat \<Rightarrow> 'r option) \<Rightarrow> string \<Rightarrow> int \<Rightarrow> 'r option \<times> attempt list" where
  "query_server cfg gs ip port =
     (let timeout = SERVER_QUERY_TIMEOUT_S cfg / 2;
          standard_query_port = 23000
      in case gs 0 ip port timeout of
           Some status \<Rightarrow> (Some status, [(ip, port, timeout)])
         | None \<Rightarrow>
             if port \<noteq> standard_query_port then
               (case gs 1 ip standard_query_port timeout of
                  Some status \<Rightarrow> (Some status, [(ip, port, timeout), (ip, standard_query_port, timeout)])
                | None \<Rightarrow> (None, [(ip, port, timeout), (ip, standard_query_port, timeout)]))
             else (None, [(ip, port, timeout)]))"

text \<open>A network on which only the standard query port answers.\<close>

definition fallback_only :: "nat \<Rightarrow> string \<Rightarrow> int \<Rightarrow> rat \<Rightarrow> string option" where
  "fallback_only k ip port t = (if port = 23000 then Some ''status'' else None)"

section \<open>Master-list client (master\_list.py)\<close>

datatype json =
    JNull
  | JBool bool
  | JInt int
  | JFloat rat
  | JStr string
  | JArr "json list"
  | JObj "(string \<times> json) list"

text \<open>
  \<open>int(x)\<close> on a decoded JSON value: a number converts (a float truncates towards zero),
  a string is parsed, and \<open>None\<close>, a list or a dict raise \<open>TypeError\<close>.
\<close>

definition trunc_rat :: "rat \<Rightarrow> int" where
  "trunc_rat q = (if 0 \<le> q then \<lfloor>q\<rfloor> else \<lceil>q\<rceil>)"

fun int_of_json :: "json \<Rightarrow> int option" where
  "int_of_json (JInt n) = Some n"
| "int_of_json (JBool b) = Some (if b then 1 else 0)"
| "int_of_json (JFloat q) = Some (trunc_rat q)"
| "int_of_json (JStr s) = py_int s"
| "int_of_json JNull = None"
| "int_of_json (JArr xs) = None"
| "int_of_json (JObj kvs) = None"

text \<open>Iterating a decoded value: a list gives its items, a string its characters, a dict
  its keys; anything else raises \<open>TypeError\<close>.\<close>

fun iter_json :: "json \<Rightarrow> json list option" where
  "iter_json (JArr xs) = Some xs"
| "iter_json (JStr s) = Some (map (\<lambda>c. JStr [c]) s)"
| "iter_json (JObj kvs) = Some (map (\<lambda>kv. JStr (fst kv)) kvs)"
| "iter_json v = None"

text \<open>
  The list comprehension of \<open>fetch_servers\<close>: items that are not lists of length 2 are
  skipped by the filter; for the others \<open>int(item[1])\<close> runs, and its exception leaves the
  comprehension.
\<close>

fun is_pair_item :: "json \<Rightarrow> bool" where
  "is_pair_item (JArr xs) = (length xs = 2)"
| "is_pair_item v = False"

fun item_at :: "json \<Rightarrow> nat \<Rightarrow> json" where
  "item_at (JArr xs) i = xs ! i"
| "item_at v i = JNull"

fun comprehend :: "json list \<Rightarrow> (json \<times> int) list option" where
  "comprehend [] = Some []"
| "comprehend (item # rest) =
     (if is_pair_item item then
        (case int_of_json (item_at item 1) of
           None \<Rightarrow> None
         | Some p \<Rightarrow> map_option ((#) (item_at item 0, p)) (comprehend rest))
      else comprehend rest)"

text \<open>
  What the HTTP GET gives: a transport error (connection, timeout), or a response with its
  status code and its body decoded as JSON (\<open>None\<close> when decoding raises).
\<close>

datatype http_result = TransportError | Response nat "json option"

definition fetch_servers :: "http_result \<Rightarrow> (json \<times> int) list option" where
  "fetch_servers r =
     (case r of
        TransportError \<Rightarrow> None
      | Response code body \<Rightarrow>
          if 400 \<le> code then None
          else (case body of
                  None \<Rightarrow> None
                | Some data \<Rightarrow>
                    (case iter_json data of
                       None \<Rightarrow> None
                     | Some items \<Rightarrow> comprehend items)))"

definition bad_port_body :: json where
  "bad_port_body =
     JArr [JArr [JStr ''1.2.3.4'', JStr ''14567''], JArr [JStr ''5.6.7.8'', JStr ''abc'']]"

section \<open>Store: tables (database.py)\<close>

text \<open>
  Timestamps are whole seconds (\<open>datetime.now(timezone.utc).replace(microsecond=0)\<close>), an
  \<open>int\<close>. Integer columns are unbounded here; a counter of failures stays far below the
  range of Postgres' \<open>INTEGER\<close>. A JSON object is a map, so that two objects are equal
  when they hold the same keys and values, as Python's \<open>==\<close> on dicts. Foreign keys are
  not checked: both ingestion paths take the server id from the row they have just
  written.
\<close>

datatype server_status = Online | Offline

record player =
  name :: "string option"
  keyhash :: "string option"
  score :: int
  ping :: int
  team :: int
  kills :: int
  deaths :: int

type_synonym raw_player = "string \<rightharpoonup> string"

text \<open>A successful probe, \<open>raw_data.info\<close> and \<open>raw_data.players\<close>; also the shape of
  \<open>raw_payload\<close>.\<close>

record raw_data =
  rd_info :: info_map
  rd_players :: "raw_player list"

record normalized_data =
  nd_mapname :: string
  nd_players :: "player list"

text \<open>\<open>info_to_save\<close>: the info map with its key \<open>players\<close> replaced by the normalized list.\<close>

record saved_info =
  si_fields :: info_map
  si_players :: "player list"

record server_row =
  srv_id :: nat
  srv_ip :: string
  srv_port :: int
  srv_hostname :: "string option"
  srv_status :: server_status
  srv_last_seen :: int
  srv_first_seen :: int
  srv_consecutive_failures :: int
  srv_active_mod :: "string option"
  srv_gametype :: "string option"
  srv_info :: "saved_info option"

record snapshot_row =
  snap_server_id :: nat
  snap_timestamp :: int
  snap_data :: normalized_data
  snap_raw :: raw_data

record session_row =
  sess_server_id :: nat
  sess_player_name :: string
  sess_player_name_norm :: string
  sess_keyhash :: "string option"
  sess_join_ts :: int
  sess_leave_ts :: "int option"

text \<open>The tables, rows in the order of their insertion, and the sequence behind
  \<open>servers.id\<close>.\<close>

record db =
  servers :: "server_row list"
  server_snapshots :: "snapshot_row list"
  player_sessions :: "session_row list"
  unique_maps :: "string set"
  servers_id_seq :: nat

definition empty_db :: db where
  "empty_db = \<lparr> servers = [], server_snapshots = [], player_sessions = [],
                unique_maps = {}, servers_id_seq = 0 \<rparr>"

section \<open>Exclusions\<close>

text \<open>The set under \<open>server_id\<close> holds strings \<open>ip:port\<close> and tuples \<open>(ip, port)\<close>.\<close>

datatype server_key = KeyStr string | KeyPair string int

record exclusions =
  ex_gametype :: "string set"
  ex_player_name :: "string set"
  ex_server_id :: "server_key set"

definition no_exclusions :: exclusions where
  "no_exclusions = \<lparr> ex_gametype = {}, ex_player_name = {}, ex_server_id = {} \<rparr>"

function str_nat :: "nat \<Rightarrow> string" where
  "str_nat n = (if n < 10 then [char_of (48 + n)] else str_nat (n div 10) @ [char_of (48 + n mod 10)])"
  by pat_completeness auto
termination
  by (relation "measure id") auto

definition str_int :: "int \<Rightarrow> string" where
  "str_int i = (if i < 0 then CHR ''-'' # str_nat (nat (- i)) else str_nat (nat i))"

definition is_server_excluded :: "exclusions \<Rightarrow> string \<Rightarrow> int \<Rightarrow> bool" where
  "is_server_excluded ex ip port =
     (let excluded_servers = ex_server_id ex;
          server_identifier = ip @ '':'' @ str_int port
      in KeyStr server_identifier \<in> excluded_servers \<or> KeyPair ip port \<in> excluded_servers)"

section \<open>Diff engine (data\_processor.\_update\_player\_sessions)\<close>

text \<open>
  \<open>_build_index\<close>: a dict from the lower-cased name to the player record, kept as an
  association list in the order of first insertion; a later record of the same normalized
  name replaces the earlier one. A record whose name is missing or empty is skipped.
\<close>

type_synonym player_index = "(string \<times> player) list"

fun build_index_from :: "player_index \<Rightarrow> player list \<Rightarrow> player_index" where
  "build_index_from index [] = index"
| "build_index_from index (p # ps) =
     (case name p of
        None \<Rightarrow> build_index_from index ps
      | Some raw_name \<Rightarrow>
          if raw_name = [] then build_index_from index ps
          else build_index_from (AList.update (lower raw_name) p index) ps)"

definition build_index :: "player list \<Rightarrow> player_index" where
  "build_index players = build_index_from [] players"

text \<open>
  A set difference of Python is a list without repetition here; the order in which the
  source walks a set is not fixed, and no statement below depends on it.
\<close>

definition set_minus :: "string list \<Rightarrow> string list \<Rightarrow> string list" where
  "set_minus xs ys = filter (\<lambda>n. n \<notin> set ys) xs"

definition joined_players :: "player list \<Rightarrow> player list \<Rightarrow> string list" where
  "joined_players prev_players current_players =
     set_minus (map fst (build_index current_players)) (map fst (build_index prev_players))"

definition left_players :: "player list \<Rightarrow> player list \<Rightarrow> string list" where
  "left_players prev_players current_players =
     set_minus (map fst (build_index prev_players)) (map fst (build_index current_players))"

fun new_sessions_data :: "nat \<Rightarrow> int \<Rightarrow> player_index \<Rightarrow> string list \<Rightarrow> session_row list" where
  "new_sessions_data server_id ts index [] = []"
| "new_sessions_data server_id ts index (norm_name # rest) =
     (case map_of index norm_name of
        None \<Rightarrow> new_sessions_data server_id ts index rest
      | Some p \<Rightarrow>
          (case name p of
             None \<Rightarrow> new_sessions_data server_id ts index rest
           | Some raw_name \<Rightarrow>
               if raw_name = [] then new_sessions_data server_id ts index rest
               else \<lparr> sess_server_id = server_id, sess_player_name = raw_name,
                      sess_player_name_norm = norm_name, sess_keyhash = keyhash p,
                      sess_join_ts = ts, sess_leave_ts = None \<rparr>
                    # new_sessions_data server_id ts index rest))"

text \<open>The two statements the function sends to the store, and what each does to the
  table \<open>player_sessions\<close>.\<close>

datatype stmt =
    UpdateLeave int nat "string list"
  | InsertSessions "session_row list"

fun exec_stmt :: "stmt \<Rightarrow> session_row list \<Rightarrow> session_row list" where
  "exec_stmt (UpdateLeave ts server_id names) rows =
     map (\<lambda>r. if sess_server_id r = server_id \<and> sess_player_name_norm r \<in> set names
                  \<and> sess_leave_ts r = None
               then r\<lparr>sess_leave_ts := Some ts\<rparr> else r) rows"
| "exec_stmt (InsertSessions new_rows) rows = rows @ new_rows"

definition session_stmts :: "nat \<Rightarrow> player list \<Rightarrow> player list \<Rightarrow> int \<Rightarrow> stmt list" where
  "session_stmts server_id prev_players current_players ts =
     (let current_index = build_index current_players;
          joined = joined_players prev_players current_players;
          left = left_players prev_players current_players;
          closes = (if left \<noteq> [] then [UpdateLeave ts server_id left] else []);
          opens = (if joined \<noteq> [] then
                     (let rows = new_sessions_data server_id ts current_index joined
                      in if rows \<noteq> [] then [InsertSessions rows] else [])
                   else [])
      in closes @ opens)"

definition update_player_sessions :: "nat \<Rightarrow> player list \<Rightarrow> player list \<Rightarrow> int \<Rightarrow> db \<Rightarrow> db" where
  "update_player_sessions server_id prev_players current_players ts d =
     d\<lparr>player_sessions :=
         fold exec_stmt (session_stmts server_id prev_players current_players ts) (player_sessions d)\<rparr>"

text \<open>
  The words of the specification: the names of a player list are the lower-cased names of
  its records that have a non-empty name; a session is open while its \<open>leave_ts\<close> is null;
  at most one open session per server and normalized name.
\<close>

definition norm_names :: "player list \<Rightarrow> string set" where
  "norm_names ps = {lower n | n p. p \<in> set ps \<and> name p = Some n \<and> n \<noteq> []}"

definition is_open :: "session_row \<Rightarrow> bool" where
  "is_open r = (sess_leave_ts r = None)"

definition session_key :: "session_row \<Rightarrow> nat \<times> string" where
  "session_key r = (sess_server_id r, sess_player_name_norm r)"

definition at_most_one_open :: "session_row list \<Rightarrow> bool" where
  "at_most_one_open rows = distinct (map session_key (filter is_open rows))"

definition open_within :: "nat \<Rightarrow> player list \<Rightarrow> session_row list \<Rightarrow> bool" where
  "open_within server_id prev_players rows =
     (\<forall>r \<in> set rows. is_open r \<and> sess_server_id r = server_id
         \<longrightarrow> sess_player_name_norm r \<in> norm_names prev_players)"

section \<open>Store adapter: success and failure ingestion (data\_processor.py)\<close>

definition coerce_int :: "string option \<Rightarrow> int \<Rightarrow> int" where
  "coerce_int v dflt =
     (case v of
        None \<Rightarrow> dflt
      | Some s \<Rightarrow> if s = [] then dflt
                  else (case py_int s of None \<Rightarrow> dflt | Some n \<Rightarrow> n))"

definition get_or :: "(string \<rightharpoonup> string) \<Rightarrow> string \<Rightarrow> string \<Rightarrow> string" where
  "get_or m k dflt = (case m k of None \<Rightarrow> dflt | Some v \<Rightarrow> v)"

text \<open>The loop that builds \<open>normalized_players\<close> (the source runs it twice, with the same
  result).\<close>

fun normalize_players :: "string set \<Rightarrow> raw_player list \<Rightarrow> player list" where
  "normalize_players excluded_player_names [] = []"
| "normalize_players excluded_player_names (p # ps) =
     (let player_name = get_or p ''player'' ''N/A''
      in if player_name \<in> excluded_player_names then normalize_players excluded_player_names ps
         else \<lparr> name = Some player_name, keyhash = p ''keyhash'',
                score = coerce_int (p ''score'') 0, ping = coerce_int (p ''ping'') 0,
                team = coerce_int (p ''team'') 0, kills = coerce_int (p ''kills'') 0,
                deaths = coerce_int (p ''deaths'') 0 \<rparr>
              # normalize_players excluded_player_names ps)"

definition same_address :: "string \<Rightarrow> int \<Rightarrow> server_row \<Rightarrow> bool" where
  "same_address ip port r = (srv_ip r = ip \<and> srv_port r = port)"

definition lookup_server :: "string \<Rightarrow> int \<Rightarrow> db \<Rightarrow> server_row option" where
  "lookup_server ip port d = find (same_address ip port) (servers d)"

text \<open>
  \<open>INSERT ... ON CONFLICT (ip, port) DO UPDATE ... RETURNING id\<close> of the success path.
  The sequence gives a value to every attempted insert, also to one that ends in the
  update.
\<close>

definition upsert_success ::
  "string \<Rightarrow> int \<Rightarrow> string \<Rightarrow> int \<Rightarrow> string \<Rightarrow> string \<Rightarrow> saved_info \<Rightarrow> db \<Rightarrow> nat \<times> db" where
  "upsert_success ip port hostname ts active_mod gametype info_jsonb d =
     (let new_id = Suc (servers_id_seq d)
      in case lookup_server ip port d of
           None \<Rightarrow>
             (new_id,
              d\<lparr>servers := servers d @
                   [\<lparr> srv_id = new_id, srv_ip = ip, srv_port = port, srv_hostname = Some hostname,
                      srv_status = Online, srv_last_seen = ts, srv_first_seen = ts,
                      srv_consecutive_failures = 0, srv_active_mod = Some active_mod,
                      srv_gametype = Some gametype, srv_info = Some info_jsonb \<rparr>],
                servers_id_seq := new_id\<rparr>)
         | Some found \<Rightarrow>
             (srv_id found,
              d\<lparr>servers :=
                   map (\<lambda>r. if same_address ip port r
                             then r\<lparr>srv_hostname := Some hostname, srv_status := Online,
                                    srv_last_seen := ts, srv_consecutive_failures := 0,
                                    srv_active_mod := Some active_mod,
                                    srv_gametype := Some gametype, srv_info := Some info_jsonb\<rparr>
                             else r) (servers d),
                servers_id_seq := new_id\<rparr>))"

text \<open>
  \<open>SELECT ... WHERE server_id = $1 ORDER BY timestamp DESC LIMIT 1\<close>. Among rows of equal
  timestamp the store may return any; the model returns the one inserted last.
\<close>

fun latest_snapshot :: "nat \<Rightarrow> snapshot_row list \<Rightarrow> snapshot_row option" where
  "latest_snapshot server_id [] = None"
| "latest_snapshot server_id (r # rs) =
     (case latest_snapshot server_id rs of
        None \<Rightarrow> if snap_server_id r = server_id then Some r else None
      | Some later \<Rightarrow>
          if snap_server_id r = server_id \<and> snap_timestamp later < snap_timestamp r
          then Some r else Some later)"

definition previous_players_of :: "nat \<Rightarrow> db \<Rightarrow> player list" where
  "previous_players_of server_id d =
     (case latest_snapshot server_id (server_snapshots d) of
        None \<Rightarrow> []
      | Some previous_snapshot \<Rightarrow> nd_players (snap_data previous_snapshot))"

definition process_server_success ::
  "string \<Rightarrow> int \<Rightarrow> raw_data \<Rightarrow> exclusions \<Rightarrow> int \<Rightarrow> db \<Rightarrow> db" where
  "process_server_success ip port raw ex ts d =
     (if is_server_excluded ex ip port then d
      else
        let info = rd_info raw;
            gametype = get_or info ''gametype'' ''N/A''
        in if gametype \<in> ex_gametype ex then d
           else
             let normalized_players = normalize_players (ex_player_name ex) (rd_players raw);
                 info_to_save = \<lparr> si_fields = info(''players'' := None),
                                  si_players = normalized_players \<rparr>;
                 hostname = get_or info ''hostname'' ''N/A'';
                 mapname = lower (get_or info ''mapname'' ''N/A'');
                 active_mod = get_or info ''active_mods'' ''N/A'';
                 (server_id, d1) = upsert_success ip port hostname ts active_mod gametype info_to_save d;
                 d2 = (if mapname \<noteq> ''n/a'' then d1\<lparr>unique_maps := insert mapname (unique_maps d1)\<rparr>
                       else d1);
                 previous_snapshot = latest_snapshot server_id (server_snapshots d2);
                 previous_data = map_option snap_data previous_snapshot;
                 previous_raw = map_option snap_raw previous_snapshot;
                 previous_players = previous_players_of server_id d2;
                 d3 = update_player_sessions server_id previous_players normalized_players ts d2;
                 normalized_data = \<lparr> nd_mapname = mapname, nd_players = normalized_players \<rparr>;
                 raw_payload = \<lparr> rd_info = rd_info raw, rd_players = rd_players raw \<rparr>
             in if previous_data = Some normalized_data \<and> previous_raw = Some raw_payload then d3
                else d3\<lparr>server_snapshots := server_snapshots d3 @
                          [\<lparr> snap_server_id = server_id, snap_timestamp = ts,
                             snap_data = normalized_data, snap_raw = raw_payload \<rparr>]\<rparr>)"

text \<open>The upsert of the failure path; it returns \<open>id\<close> and \<open>consecutive_failures\<close> of the
  row it wrote.\<close>

definition upsert_failure :: "settings \<Rightarrow> string \<Rightarrow> int \<Rightarrow> int \<Rightarrow> db \<Rightarrow> (nat \<times> int) \<times> db" where
  "upsert_failure cfg ip port ts d =
     (let new_id = Suc (servers_id_seq d)
      in case lookup_server ip port d of
           None \<Rightarrow>
             ((new_id, 1),
              d\<lparr>servers := servers d @
                   [\<lparr> srv_id = new_id, srv_ip = ip, srv_port = port, srv_hostname = None,
                      srv_status = Offline, srv_last_seen = ts, srv_first_seen = ts,
                      srv_consecutive_failures = 1, srv_active_mod = None,
                      srv_gametype = None, srv_info = None \<rparr>],
                servers_id_seq := new_id\<rparr>)
         | Some found \<Rightarrow>
             ((srv_id found, srv_consecutive_failures found + 1),
              d\<lparr>servers :=
                   map (\<lambda>r. if same_address ip port r
                             then r\<lparr>srv_last_seen := ts,
                                    srv_consecutive_failures := srv_consecutive_failures r + 1,
                                    srv_status :=
                                      (if srv_consecutive_failures r + 1 \<ge> OFFLINE_FAILURE_THRESHOLD cfg
                                       then Offline else srv_status r)\<rparr>
                             else r) (servers d),
                servers_id_seq := new_id\<rparr>))"

definition process_server_failure :: "settings \<Rightarrow> string \<Rightarrow> int \<Rightarrow> int \<Rightarrow> db \<Rightarrow> db" where
  "process_server_failure cfg ip port ts d =
     (let ((server_id, failures), d1) = upsert_failure cfg ip port ts d
      in if failures \<ge> OFFLINE_FAILURE_THRESHOLD cfg
         then update_player_sessions server_id (previous_players_of server_id d1) [] ts d1
         else d1)"

text \<open>A run of failed probes, each with its address and its timestamp.\<close>

definition fail_all :: "settings \<Rightarrow> (string \<times> int \<times> int) list \<Rightarrow> db \<Rightarrow> db" where
  "fail_all cfg evs d = fold (\<lambda>(ip, port, ts). process_server_failure cfg ip port ts) evs d"

section \<open>Auxiliary notions and sample data\<close>

definition has_name :: "player \<Rightarrow> bool" where
  "has_name p = (case name p of None \<Rightarrow> False | Some n \<Rightarrow> n \<noteq> [])"

text \<open>An entry of the index of \<open>ps\<close>: a record of \<open>ps\<close> under its lower-cased, non-empty
  name.\<close>

definition entry_ok :: "player list \<Rightarrow> string \<Rightarrow> player \<Rightarrow> bool" where
  "entry_ok ps n p = (p \<in> set ps \<and> (\<exists>raw. name p = Some raw \<and> raw \<noteq> [] \<and> lower raw = n))"

text \<open>The id that the upsert of either path returns for an address.\<close>

definition returned_id :: "string \<Rightarrow> int \<Rightarrow> db \<Rightarrow> nat" where
  "returned_id ip port d =
     (case lookup_server ip port d of None \<Rightarrow> Suc (servers_id_seq d) | Some found \<Rightarrow> srv_id found)"

text \<open>The success path goes on to the upsert.\<close>

definition accepted :: "exclusions \<Rightarrow> string \<Rightarrow> int \<Rightarrow> raw_data \<Rightarrow> bool" where
  "accepted ex ip port raw =
     (\<not> is_server_excluded ex ip port \<and> get_or (rd_info raw) ''gametype'' ''N/A'' \<notin> ex_gametype ex)"

definition named :: "string \<Rightarrow> player" where
  "named n = \<lparr> name = Some n, keyhash = None, score = 0, ping = 0, team = 0, kills = 0,
               deaths = 0 \<rparr>"

definition nameless :: player where
  "nameless = \<lparr> name = None, keyhash = None, score = 0, ping = 0, team = 0, kills = 0,
               deaths = 0 \<rparr>"

definition open_session :: "nat \<Rightarrow> string \<Rightarrow> string \<Rightarrow> int \<Rightarrow> session_row" where
  "open_session sid raw_name norm_name ts =
     \<lparr> sess_server_id = sid, sess_player_name = raw_name, sess_player_name_norm = norm_name,
       sess_keyhash = None, sess_join_ts = ts, sess_leave_ts = None \<rparr>"

definition alice_probe :: raw_data where
  "alice_probe = \<lparr> rd_info = Map.empty, rd_players = [[''player'' \<mapsto> ''Alice'']] \<rparr>"

definition alice_excluded :: exclusions where
  "alice_excluded = \<lparr> ex_gametype = {}, ex_player_name = {''Alice''}, ex_server_id = {} \<rparr>"

text \<open>The row that the success path inserts into \<open>server_snapshots\<close>.\<close>

definition new_snapshot :: "string \<Rightarrow> int \<Rightarrow> raw_data \<Rightarrow> exclusions \<Rightarrow> int \<Rightarrow> db \<Rightarrow> snapshot_row" where
  "new_snapshot ip port raw ex ts d =
     \<lparr> snap_server_id = returned_id ip port d, snap_timestamp = ts,
       snap_data = \<lparr> nd_mapname = lower (get_or (rd_info raw) ''mapname'' ''N/A''),
                     nd_players = normalize_players (ex_player_name ex) (rd_players raw) \<rparr>,
       snap_raw = raw \<rparr>"


text \<open>Every server row of the first state is still in its place in the second, with the
  same id and address and a count of failures that is not smaller.\<close>

definition failures_grow :: "db \<Rightarrow> db \<Rightarrow> bool" where
  "failures_grow d d' =
     (length (servers d) \<le> length (servers d') \<and>
      (\<forall>i < length (servers d).
         srv_id (servers d' ! i) = srv_id (servers d ! i) \<and>
         srv_ip (servers d' ! i) = srv_ip (servers d ! i) \<and>
         srv_port (servers d' ! i) = srv_port (servers d ! i) \<and>
         srv_consecutive_failures (servers d ! i) \<le> srv_consecutive_failures (servers d' ! i)))"

definition two_probe :: raw_data where
  "two_probe = \<lparr> rd_info = Map.empty,
                  rd_players = [[''player'' \<mapsto> ''Alice''], [''player'' \<mapsto> ''Bob'']] \<rparr>"

text \<open>A store in which the server 1.2.3.4:14567 was seen with Alice at 10 and has failed
  twice since.\<close>

definition dark_row :: server_row where
  "dark_row = \<lparr> srv_id = 1, srv_ip = ''1.2.3.4'', srv_port = 14567, srv_hostname = Some ''N/A'',
                 srv_status = Online, srv_last_seen = 30, srv_first_seen = 10,
                 srv_consecutive_failures = 2, srv_active_mod = Some ''N/A'',
                 srv_gametype = Some ''N/A'',
                 srv_info = Some \<lparr> si_fields = Map.empty, si_players = [named ''Alice''] \<rparr> \<rparr>"

definition dark_server :: db where
  "dark_server =
     \<lparr> servers = [dark_row],
       server_snapshots = [\<lparr> snap_server_id = 1, snap_timestamp = 10,
                             snap_data = \<lparr> nd_mapname = ''n/a'', nd_players = [named ''Alice''] \<rparr>,
                             snap_raw = alice_probe \<rparr>],
       player_sessions = [open_session 1 ''Alice'' ''alice'' 10],
       unique_maps = {}, servers_id_seq = 1 \<rparr>"

section \<open>Lemmas: values of the parsers\<close>



lemma py_int_abc: "py_int ''abc'' = None"
  by code_simp

lemma py_int_14567: "py_int ''14567'' = Some 14567"
  by code_simp

lemma lower_Alice: "lower ''Alice'' = ''alice''"
  by code_simp

lemma lower_Bob: "lower ''Bob'' = ''bob''"
  by code_simp

lemma lower_eq_Nil [simp]: "lower s = [] \<longleftrightarrow> s = []"
  by (simp add: lower_def)

section \<open>Lemmas: the name index and the session statements\<close>

lemma norm_names_Nil [simp]: "norm_names [] = {}"
  by (simp add: norm_names_def)

lemma norm_names_Cons:
  "norm_names (p # ps) =
     (case name p of None \<Rightarrow> norm_names ps
      | Some n \<Rightarrow> if n = [] then norm_names ps else insert (lower n) (norm_names ps))"
  by (auto simp: norm_names_def split: option.splits)

lemma index_keys_from:
  "fst ` set (build_index_from index ps) = fst ` set index \<union> norm_names ps"
  by (induction ps arbitrary: index) (auto simp: norm_names_Cons dom_update split: option.splits)

lemma index_keys: "set (map fst (build_index ps)) = norm_names ps"
  by (simp add: build_index_def index_keys_from)

lemma index_distinct_from:
  "distinct (map fst index) \<Longrightarrow> distinct (map fst (build_index_from index ps))"
  by (induction ps arbitrary: index) (auto simp: distinct_update split: option.splits)

lemma index_distinct: "distinct (map fst (build_index ps))"
  by (simp add: build_index_def index_distinct_from)

lemma index_entries_from:
  "(\<And>n p. map_of index n = Some p \<Longrightarrow> entry_ok (qs @ ps) n p) \<Longrightarrow>
   map_of (build_index_from index ps) n = Some p \<Longrightarrow> entry_ok (qs @ ps) n p"
proof (induction ps arbitrary: index qs)
  case Nil
  then show ?case by simp
next
  case (Cons a ps)
  have step: "\<And>index'. (\<And>n p. map_of index' n = Some p \<Longrightarrow> entry_ok ((qs @ [a]) @ ps) n p) \<Longrightarrow>
     map_of (build_index_from index' ps) n = Some p \<Longrightarrow> entry_ok ((qs @ [a]) @ ps) n p"
    using Cons.IH [of _ "qs @ [a]"] by blast
  have old: "\<And>n p. map_of index n = Some p \<Longrightarrow> entry_ok ((qs @ [a]) @ ps) n p"
    using Cons.prems(1) by simp
  show ?case
  proof (cases "name a")
    case None
    then show ?thesis using step [of index] old Cons.prems(2) by simp
  next
    case (Some raw)
    show ?thesis
    proof (cases "raw = []")
      case True
      then show ?thesis using Some step [of index] old Cons.prems(2) by simp
    next
      case False
      have new: "\<And>n p. map_of (AList.update (lower raw) a index) n = Some p
                  \<Longrightarrow> entry_ok ((qs @ [a]) @ ps) n p"
        using old Some False
        by (auto simp: update_conv' entry_ok_def split: if_splits)
      show ?thesis
        using Some False step [of "AList.update (lower raw) a index"] new Cons.prems(2)
        by simp
    qed
  qed
qed

lemma index_entries: "map_of (build_index ps) n = Some p \<Longrightarrow> entry_ok ps n p"
  using index_entries_from [of "[]" "[]" ps n p] by (simp add: build_index_def)

lemma index_lookup: "n \<in> norm_names ps \<Longrightarrow> \<exists>p. map_of (build_index ps) n = Some p"
proof -
  assume "n \<in> norm_names ps"
  then have "n \<in> fst ` set (build_index ps)"
    using index_keys [of ps] by simp
  then obtain p where "(n, p) \<in> set (build_index ps)" by force
  then show ?thesis by (rule weak_map_of_SomeI)
qed

lemma index_values_named: "(n, p) \<in> set (build_index ps) \<Longrightarrow> has_name p"
proof -
  assume a: "(n, p) \<in> set (build_index ps)"
  have "map_of (build_index ps) n = Some p"
    using a index_distinct [of ps] by simp
  from index_entries [OF this] show ?thesis
    by (auto simp: entry_ok_def has_name_def)
qed

lemma index_filter_from:
  "build_index_from index (filter has_name ps) = build_index_from index ps"
  by (induction ps arbitrary: index) (auto simp: has_name_def split: option.splits)

lemma index_filter: "build_index (filter has_name ps) = build_index ps"
  by (simp add: build_index_def index_filter_from)

lemma joined_set: "set (joined_players prev cur) = norm_names cur - norm_names prev"
  using index_keys [of cur] index_keys [of prev]
  by (auto simp: joined_players_def set_minus_def)

lemma left_set: "set (left_players prev cur) = norm_names prev - norm_names cur"
  using index_keys [of cur] index_keys [of prev]
  by (auto simp: left_players_def set_minus_def)

lemma joined_distinct: "distinct (joined_players prev cur)"
  by (simp add: joined_players_def set_minus_def index_distinct)

lemma new_rows_norm:
  "set ns \<subseteq> norm_names cur \<Longrightarrow>
   map sess_player_name_norm (new_sessions_data sid ts (build_index cur) ns) = ns"
proof (induction ns)
  case Nil
  then show ?case by simp
next
  case (Cons n ns)
  then obtain p where p: "map_of (build_index cur) n = Some p"
    using index_lookup [of n cur] by auto
  from index_entries [OF p] obtain raw where "name p = Some raw" "raw \<noteq> []"
    by (auto simp: entry_ok_def)
  with p Cons show ?case by simp
qed

lemma new_rows_content:
  "r \<in> set (new_sessions_data sid ts (build_index cur) ns) \<Longrightarrow>
   sess_server_id r = sid \<and> sess_join_ts r = ts \<and> sess_leave_ts r = None \<and>
   sess_player_name r \<noteq> [] \<and> sess_player_name_norm r \<noteq> [] \<and>
   lower (sess_player_name r) = sess_player_name_norm r \<and>
   sess_player_name_norm r \<in> set ns \<and>
   (\<exists>p \<in> set cur. name p = Some (sess_player_name r) \<and> sess_keyhash r = keyhash p)"
proof (induction ns)
  case Nil
  then show ?case by simp
next
  case (Cons n ns)
  show ?case
  proof (cases "map_of (build_index cur) n")
    case None
    then show ?thesis using Cons by simp
  next
    case (Some p)
    from index_entries [OF Some] obtain raw where
      raw: "name p = Some raw" "raw \<noteq> []" "lower raw = n" "p \<in> set cur"
      by (auto simp: entry_ok_def)
    have "n \<noteq> []" using raw by auto
    then show ?thesis using Cons Some raw by auto
  qed
qed

lemma sessions_after:
  "player_sessions (update_player_sessions sid prev cur ts d) =
     exec_stmt (InsertSessions (new_sessions_data sid ts (build_index cur) (joined_players prev cur)))
       (exec_stmt (UpdateLeave ts sid (left_players prev cur)) (player_sessions d))"
  by (simp add: update_player_sessions_def session_stmts_def Let_def)

lemma stmts_shape:
  "session_stmts sid prev cur ts =
     (if left_players prev cur \<noteq> [] then [UpdateLeave ts sid (left_players prev cur)] else []) @
     (if joined_players prev cur \<noteq> []
      then [InsertSessions (new_sessions_data sid ts (build_index cur) (joined_players prev cur))]
      else [])"
proof -
  have "map sess_player_name_norm (new_sessions_data sid ts (build_index cur) (joined_players prev cur))
        = joined_players prev cur"
    by (rule new_rows_norm) (simp add: joined_set)
  then have "joined_players prev cur \<noteq> [] \<Longrightarrow>
        new_sessions_data sid ts (build_index cur) (joined_players prev cur) \<noteq> []"
    by auto
  then show ?thesis by (auto simp: session_stmts_def Let_def)
qed

lemma stmts_filter:
  "session_stmts sid (filter has_name prev) (filter has_name cur) ts = session_stmts sid prev cur ts"
  by (simp add: session_stmts_def joined_players_def left_players_def index_filter)

lemma open_after_close:
  "map session_key (filter is_open (exec_stmt (UpdateLeave ts sid names) rows)) =
   map session_key (filter (\<lambda>r. \<not> (sess_server_id r = sid \<and> sess_player_name_norm r \<in> set names))
                      (filter is_open rows))"
  by (induction rows) (auto simp: is_open_def session_key_def)

lemma new_rows_open:
  "filter is_open (new_sessions_data sid ts index ns) = new_sessions_data sid ts index ns"
  by (induction ns) (auto simp: is_open_def split: option.splits)

lemma new_rows_keys:
  "set ns \<subseteq> norm_names cur \<Longrightarrow>
   map session_key (new_sessions_data sid ts (build_index cur) ns) = map (Pair sid) ns"
proof -
  assume a: "set ns \<subseteq> norm_names cur"
  have "\<forall>r \<in> set (new_sessions_data sid ts (build_index cur) ns). sess_server_id r = sid"
    using new_rows_content by blast
  then have "map session_key (new_sessions_data sid ts (build_index cur) ns)
      = map (Pair sid) (map sess_player_name_norm (new_sessions_data sid ts (build_index cur) ns))"
    by (simp add: session_key_def)
  then show ?thesis using new_rows_norm [OF a] by simp
qed

lemma transition_keeps_invariant:
  assumes inv: "at_most_one_open (player_sessions d)"
    and cov: "open_within sid prev (player_sessions d)"
  shows "at_most_one_open (player_sessions (update_player_sessions sid prev cur ts d))"
proof -
  let ?J = "joined_players prev cur"
  let ?L = "left_players prev cur"
  let ?N = "new_sessions_data sid ts (build_index cur) ?J"
  let ?C = "exec_stmt (UpdateLeave ts sid ?L) (player_sessions d)"
  have sub: "set ?J \<subseteq> norm_names cur" by (simp add: joined_set)
  have keysN: "map session_key ?N = map (Pair sid) ?J" by (rule new_rows_keys [OF sub])
  have dN: "distinct (map session_key ?N)"
    unfolding keysN by (simp add: distinct_map joined_distinct inj_on_def)
  have dC: "distinct (map session_key (filter is_open ?C))"
    using inv unfolding at_most_one_open_def open_after_close by (rule distinct_map_filter)
  have disj: "set (map session_key (filter is_open ?C)) \<inter> set (map session_key ?N) = {}"
  proof -
    have "\<And>r. r \<in> set (player_sessions d) \<Longrightarrow> is_open r \<Longrightarrow> sess_server_id r = sid
            \<Longrightarrow> sess_player_name_norm r \<notin> set ?J"
      using cov by (auto simp: open_within_def joined_set)
    then show ?thesis
      unfolding open_after_close keysN by (auto simp: session_key_def)
  qed
  show ?thesis
    unfolding sessions_after
    using dN dC disj by (simp add: at_most_one_open_def new_rows_open)
qed


section \<open>Lemmas: the two ingestion paths\<close>

lemma find_append_new: "find P xs = None \<Longrightarrow> P y \<Longrightarrow> find P (xs @ [y]) = Some y"
  by (induction xs) (auto split: if_splits)

lemma find_map_same: "(\<And>x. P (f x) = P x) \<Longrightarrow> find P (map f xs) = map_option f (find P xs)"
  by (induction xs) auto

lemma lookup_address: "lookup_server ip port d = Some found \<Longrightarrow> same_address ip port found"
  by (auto simp: lookup_server_def find_Some_iff)

lemma upsert_success_result:
  "upsert_success ip port h ts a g i d = (sid, d1) \<Longrightarrow>
   sid = returned_id ip port d \<and> server_snapshots d1 = server_snapshots d \<and>
   player_sessions d1 = player_sessions d"
  by (auto simp: upsert_success_def returned_id_def Let_def split: option.splits)

lemma success_sessions:
  "accepted ex ip port raw \<Longrightarrow>
   player_sessions (process_server_success ip port raw ex ts d) =
     fold exec_stmt
       (session_stmts (returned_id ip port d) (previous_players_of (returned_id ip port d) d)
          (normalize_players (ex_player_name ex) (rd_players raw)) ts)
       (player_sessions d)"
  by (auto simp: process_server_success_def accepted_def Let_def update_player_sessions_def
      previous_players_of_def split: prod.splits dest!: upsert_success_result)

lemma success_snapshots:
  "accepted ex ip port raw \<Longrightarrow>
   server_snapshots (process_server_success ip port raw ex ts d) =
     (case latest_snapshot (returned_id ip port d) (server_snapshots d) of
        None \<Rightarrow> server_snapshots d @ [new_snapshot ip port raw ex ts d]
      | Some previous \<Rightarrow>
          if snap_data previous \<noteq> snap_data (new_snapshot ip port raw ex ts d)
             \<or> snap_raw previous \<noteq> raw
          then server_snapshots d @ [new_snapshot ip port raw ex ts d]
          else server_snapshots d)"
  by (auto simp: process_server_success_def accepted_def Let_def update_player_sessions_def
      new_snapshot_def split: prod.splits option.splits dest!: upsert_success_result)

lemma success_servers:
  "accepted ex ip port raw \<Longrightarrow>
   \<exists>h a g i. servers (process_server_success ip port raw ex ts d) =
              servers (snd (upsert_success ip port h ts a g i d))"
  by (auto simp: process_server_success_def accepted_def Let_def update_player_sessions_def
      split: prod.splits) (metis snd_conv)+

lemma upsert_success_lookup:
  "\<exists>r. find (same_address ip port) (servers (snd (upsert_success ip port h ts a g i d))) = Some r
       \<and> srv_id r = returned_id ip port d \<and> srv_consecutive_failures r = 0"
proof (cases "lookup_server ip port d")
  case None
  then show ?thesis
    by (simp add: upsert_success_def returned_id_def Let_def lookup_server_def
        find_append_new same_address_def)
next
  case (Some found)
  with lookup_address [OF Some] show ?thesis
    by (simp add: upsert_success_def returned_id_def Let_def lookup_server_def
        find_map_same same_address_def)
qed

lemma upsert_success_reset:
  "r \<in> set (servers (snd (upsert_success ip port h ts a g i d))) \<Longrightarrow> same_address ip port r
   \<Longrightarrow> srv_consecutive_failures r = 0"
  by (auto simp: upsert_success_def Let_def lookup_server_def find_None_iff
      split: option.splits if_splits)

lemma success_lookup:
  assumes "accepted ex ip port raw"
  shows "\<exists>r. lookup_server ip port (process_server_success ip port raw ex ts d) = Some r
       \<and> srv_id r = returned_id ip port d \<and> srv_consecutive_failures r = 0"
  using success_servers [OF assms, of ts d] upsert_success_lookup [of ip port _ ts _ _ _ d]
  by (metis lookup_server_def)

lemma success_resets_all:
  assumes "accepted ex ip port raw"
    and "r \<in> set (servers (process_server_success ip port raw ex ts d))"
    and "same_address ip port r"
  shows "srv_consecutive_failures r = 0"
  using success_servers [OF assms(1), of ts d] upsert_success_reset [of r ip port _ ts _ _ _ d] assms(2,3)
  by metis

lemma success_returned_id:
  "accepted ex ip port raw \<Longrightarrow>
   returned_id ip port (process_server_success ip port raw ex ts d) = returned_id ip port d"
  using success_lookup [of ex ip port raw ts d] by (auto simp: returned_id_def)



lemma new_snapshot_sel:
  "snap_server_id (new_snapshot ip port raw ex ts d) = returned_id ip port d"
  "snap_timestamp (new_snapshot ip port raw ex ts d) = ts"
  "snap_raw (new_snapshot ip port raw ex ts d) = raw"
  by (simp_all add: new_snapshot_def)



lemma normalized_not_excluded:
  "p \<in> set (normalize_players excl raws) \<Longrightarrow> \<exists>n. name p = Some n \<and> n \<notin> excl"
  by (induction raws) (auto simp: Let_def split: if_splits)


lemma failure_servers:
  "servers (process_server_failure cfg ip port ts d) = servers (snd (upsert_failure cfg ip port ts d))"
  by (simp add: process_server_failure_def Let_def update_player_sessions_def split: prod.splits)



lemma failure_old_row:
  assumes "lookup_server ip port d = Some found"
  shows "lookup_server ip port (process_server_failure cfg ip port ts d) =
     Some (found\<lparr>srv_last_seen := ts,
                 srv_consecutive_failures := srv_consecutive_failures found + 1,
                 srv_status := (if srv_consecutive_failures found + 1 \<ge> OFFLINE_FAILURE_THRESHOLD cfg
                                then Offline else srv_status found)\<rparr>)"
  using assms lookup_address [OF assms]
  by (simp add: failure_servers upsert_failure_def Let_def lookup_server_def find_map_same
      same_address_def)

lemma grow_trans: "failures_grow a b \<Longrightarrow> failures_grow b c \<Longrightarrow> failures_grow a c"
  unfolding failures_grow_def
  by (metis (no_types, lifting) order.trans less_le_trans)

lemma grow_failure: "failures_grow d (process_server_failure cfg ip port ts d)"
  by (cases "lookup_server ip port d")
    (simp_all add: failures_grow_def failure_servers upsert_failure_def Let_def nth_append)

lemma grow_fail_all: "failures_grow d (fail_all cfg evs d)"
proof (induction evs arbitrary: d)
  case Nil
  then show ?case by (simp add: fail_all_def failures_grow_def)
next
  case (Cons ev evs)
  obtain ip port ts where ev: "ev = (ip, port, ts)" by (cases ev)
  have "failures_grow d (process_server_failure cfg ip port ts d)"
    by (rule grow_failure)
  moreover have "failures_grow (process_server_failure cfg ip port ts d)
      (fail_all cfg evs (process_server_failure cfg ip port ts d))"
    by (rule Cons.IH)
  ultimately show ?case
    using grow_trans by (simp add: fail_all_def ev)
qed

section \<open>Lemmas: values on the sample data\<close>

lemma named_sel: "name (named n) = Some n" "keyhash (named n) = None"
  by (simp_all add: named_def)

lemma index_Nil: "build_index [] = []"
  by (simp add: build_index_def)

lemma index_Alice: "build_index [named ''Alice''] = [(''alice'', named ''Alice'')]"
  by (simp add: build_index_def named_sel lower_Alice)

lemma index_Bob: "build_index [named ''Bob''] = [(''bob'', named ''Bob'')]"
  by (simp add: build_index_def named_sel lower_Bob)

lemma diff_Alice_in: "joined_players [] [named ''Alice''] = [''alice'']" "left_players [] [named ''Alice''] = []"
  by (simp_all add: joined_players_def left_players_def set_minus_def index_Alice index_Nil)

lemma diff_Alice_out: "joined_players [named ''Alice''] [] = []" "left_players [named ''Alice''] [] = [''alice'']"
  by (simp_all add: joined_players_def left_players_def set_minus_def index_Alice index_Nil)

lemma diff_Alice_Bob:
  "joined_players [named ''Alice''] [named ''Bob''] = [''bob'']"
  "left_players [named ''Alice''] [named ''Bob''] = [''alice'']"
  by (simp_all add: joined_players_def left_players_def set_minus_def index_Alice index_Bob)

lemma diff_Bob_in: "joined_players [] [named ''Bob''] = [''bob'']" "left_players [] [named ''Bob''] = []"
  by (simp_all add: joined_players_def left_players_def set_minus_def index_Bob index_Nil)

lemma returned_id_empty: "returned_id ip port empty_db = 1"
  by (simp add: returned_id_def lookup_server_def empty_db_def)

lemma previous_empty: "previous_players_of sid empty_db = []"
  by (simp add: previous_players_of_def empty_db_def)

lemma normalize_alice:
  "normalize_players (ex_player_name no_exclusions) (rd_players alice_probe) = [named ''Alice'']"
  "normalize_players (ex_player_name alice_excluded) (rd_players alice_probe) = []"
  "normalize_players (ex_player_name alice_excluded) (rd_players two_probe) = [named ''Bob'']"
  by (simp_all add: alice_probe_def two_probe_def alice_excluded_def no_exclusions_def get_or_def
      named_def coerce_int_def)

lemma accepted_samples:
  "accepted no_exclusions ip port alice_probe" "accepted alice_excluded ip port alice_probe"
  "accepted alice_excluded ip port two_probe"
  by (simp_all add: accepted_def no_exclusions_def alice_excluded_def is_server_excluded_def)

lemma first_alice_probe:
  "player_sessions (process_server_success ip port alice_probe no_exclusions 10 empty_db)
     = [open_session 1 ''Alice'' ''alice'' 10]"
  "server_snapshots (process_server_success ip port alice_probe no_exclusions 10 empty_db)
     = [new_snapshot ip port alice_probe no_exclusions 10 empty_db]"
proof -
  show "player_sessions (process_server_success ip port alice_probe no_exclusions 10 empty_db)
     = [open_session 1 ''Alice'' ''alice'' 10]"
    by (simp add: success_sessions [OF accepted_samples(1)] returned_id_empty previous_empty
        normalize_alice stmts_shape diff_Alice_in index_Alice named_sel)
      (simp add: empty_db_def open_session_def)
  show "server_snapshots (process_server_success ip port alice_probe no_exclusions 10 empty_db)
     = [new_snapshot ip port alice_probe no_exclusions 10 empty_db]"
    by (simp add: success_snapshots [OF accepted_samples(1)]) (simp add: empty_db_def)
qed



section \<open>C1: the session transition\<close>

text \<open>
  C1, as the code has it. The joined names are the names of the current list that are not
  names of the previous list, and the left names the other way round, a name being the
  lower-cased non-empty name of a record. The statements are sent close before open: first
  the update that sets \<open>leave_ts\<close> to the timestamp on every open session of the server
  whose normalized name has left, then the insert of one row for each joined name, with
  the raw name and the keyhash of a current record, the normalized name, the timestamp as
  \<open>join_ts\<close> and no \<open>leave_ts\<close>. If at most one session is open for every server and
  name, and every open session of this server is for a name of the previous list, then at
  most one session is open for every server and name afterwards.
\<close>

theorem session_transition:
  "set (joined_players prev cur) = norm_names cur - norm_names prev \<and>
   set (left_players prev cur) = norm_names prev - norm_names cur \<and>
   session_stmts sid prev cur ts =
     (if left_players prev cur \<noteq> [] then [UpdateLeave ts sid (left_players prev cur)] else []) @
     (if joined_players prev cur \<noteq> []
      then [InsertSessions (new_sessions_data sid ts (build_index cur) (joined_players prev cur))]
      else []) \<and>
   player_sessions (update_player_sessions sid prev cur ts d) =
     exec_stmt (InsertSessions (new_sessions_data sid ts (build_index cur) (joined_players prev cur)))
       (exec_stmt (UpdateLeave ts sid (left_players prev cur)) (player_sessions d)) \<and>
   map sess_player_name_norm (new_sessions_data sid ts (build_index cur) (joined_players prev cur))
     = joined_players prev cur \<and>
   distinct (joined_players prev cur) \<and>
   (\<forall>r \<in> set (new_sessions_data sid ts (build_index cur) (joined_players prev cur)).
      sess_server_id r = sid \<and> sess_join_ts r = ts \<and> sess_leave_ts r = None \<and>
      sess_player_name_norm r = lower (sess_player_name r) \<and>
      (\<exists>p \<in> set cur. name p = Some (sess_player_name r) \<and> sess_keyhash r = keyhash p)) \<and>
   (at_most_one_open (player_sessions d) \<and> open_within sid prev (player_sessions d)
      \<longrightarrow> at_most_one_open (player_sessions (update_player_sessions sid prev cur ts d)))"
proof -
  have rows: "\<forall>r \<in> set (new_sessions_data sid ts (build_index cur) (joined_players prev cur)).
      sess_server_id r = sid \<and> sess_join_ts r = ts \<and> sess_leave_ts r = None \<and>
      sess_player_name_norm r = lower (sess_player_name r) \<and>
      (\<exists>p \<in> set cur. name p = Some (sess_player_name r) \<and> sess_keyhash r = keyhash p)"
    using new_rows_content [of _ sid ts cur "joined_players prev cur"] by metis
  have norm: "map sess_player_name_norm (new_sessions_data sid ts (build_index cur) (joined_players prev cur))
     = joined_players prev cur"
    by (rule new_rows_norm) (simp add: joined_set)
  show ?thesis
    using rows norm joined_set [of prev cur] left_set [of prev cur] stmts_shape [of sid prev cur ts]
      sessions_after [of sid prev cur ts d] joined_distinct [of prev cur]
      transition_keeps_invariant [of d sid prev cur ts]
    by blast
qed

text \<open>C1, where Alice was present and Bob is: Alice's session is closed at 20 and Bob's is
  opened at 20.\<close>

theorem session_transition_witness:
  "at_most_one_open (player_sessions dark_server) \<and>
   open_within 1 [named ''Alice''] (player_sessions dark_server) \<and>
   player_sessions (update_player_sessions 1 [named ''Alice''] [named ''Bob''] 20 dark_server) =
     [(open_session 1 ''Alice'' ''alice'' 10)\<lparr>sess_leave_ts := Some 20\<rparr>, open_session 1 ''Bob'' ''bob'' 20] \<and>
   at_most_one_open (player_sessions (update_player_sessions 1 [named ''Alice''] [named ''Bob''] 20 dark_server))"
proof -
  have a: "at_most_one_open (player_sessions dark_server)"
    by (simp add: dark_server_def open_session_def at_most_one_open_def is_open_def)
  have b: "open_within 1 [named ''Alice''] (player_sessions dark_server)"
    by (simp add: dark_server_def open_session_def open_within_def
        norm_names_Cons named_sel lower_Alice)
  have v: "player_sessions (update_player_sessions 1 [named ''Alice''] [named ''Bob''] 20 dark_server) =
     [(open_session 1 ''Alice'' ''alice'' 10)\<lparr>sess_leave_ts := Some 20\<rparr>, open_session 1 ''Bob'' ''bob'' 20]"
    by (simp add: sessions_after diff_Alice_Bob index_Bob named_sel dark_server_def open_session_def)
  have i: "at_most_one_open (player_sessions (update_player_sessions 1 [named ''Alice''] [named ''Bob''] 20 dark_server))"
    using session_transition [of "[named ''Alice'']" "[named ''Bob'']" 1 20 dark_server] a b
    by blast
  show ?thesis
    using a b v i by blast
qed

text \<open>
  C1 as it is written fails: the call with an empty previous list and Alice in the current
  list, on a store where a session of Alice is open on that server, leaves two open
  sessions of (1, alice). And a current record whose name is the empty string has an empty
  lower-cased name, which is not a name of the empty previous list, yet nothing joins.
\<close>

theorem reopen_counterexample:
  "at_most_one_open (player_sessions dark_server) \<and>
   player_sessions (update_player_sessions 1 [] [named ''Alice''] 20 dark_server) =
     [open_session 1 ''Alice'' ''alice'' 10, open_session 1 ''Alice'' ''alice'' 20] \<and>
   \<not> at_most_one_open (player_sessions (update_player_sessions 1 [] [named ''Alice''] 20 dark_server)) \<and>
   name (named '''') = Some '''' \<and> joined_players [] [named ''''] = []"
proof -
  have e: "joined_players [] [named ''''] = []"
    by (simp add: joined_players_def set_minus_def build_index_def named_sel)
  show ?thesis
    by (simp add: sessions_after diff_Alice_in index_Alice named_sel dark_server_def
        open_session_def at_most_one_open_def is_open_def session_key_def e)
qed

section \<open>C2: snapshots are inserted on change, sessions always advance\<close>



section \<open>C3: failure ingestion\<close>



section \<open>C4: the next-delay policy\<close>



section \<open>C5: defensive parsing of the delay inputs\<close>




section \<open>C6: player-name exclusions and the diff\<close>

text \<open>
  C6, as the code has it. The current player list is filtered through the \<open>player_name\<close>
  exclusion set: no normalized player carries an excluded name, and no row that the
  transition inserts has an excluded \<open>player_name\<close>. The previous list is the player list
  of the latest stored snapshot, taken as it is, so an excluded name that it holds is an
  input of the diff and may close a session.
\<close>

theorem exclusion_filters_current:
  "(\<forall>p \<in> set (normalize_players excl raws). \<exists>n. name p = Some n \<and> n \<notin> excl) \<and>
   (\<forall>rows. InsertSessions rows \<in> set (session_stmts sid prev (normalize_players excl raws) ts) \<longrightarrow>
      (\<forall>r \<in> set rows. sess_player_name r \<notin> excl)) \<and>
   (accepted ex ip port raw \<longrightarrow>
      player_sessions (process_server_success ip port raw ex ts d) =
        fold exec_stmt
          (session_stmts (returned_id ip port d) (previous_players_of (returned_id ip port d) d)
             (normalize_players (ex_player_name ex) (rd_players raw)) ts)
          (player_sessions d))"
proof -
  have a: "\<forall>p \<in> set (normalize_players excl raws). \<exists>n. name p = Some n \<and> n \<notin> excl"
    using normalized_not_excluded by blast
  have b: "\<forall>rows. InsertSessions rows \<in> set (session_stmts sid prev (normalize_players excl raws) ts) \<longrightarrow>
      (\<forall>r \<in> set rows. sess_player_name r \<notin> excl)"
  proof (intro allI impI ballI)
    fix rows r
    assume "InsertSessions rows \<in> set (session_stmts sid prev (normalize_players excl raws) ts)"
      and r: "r \<in> set rows"
    then have "r \<in> set (new_sessions_data sid ts (build_index (normalize_players excl raws))
                 (joined_players prev (normalize_players excl raws)))"
      by (auto simp: stmts_shape split: if_splits)
    from new_rows_content [OF this] obtain p where
      "p \<in> set (normalize_players excl raws)" "name p = Some (sess_player_name r)"
      by blast
    then show "sess_player_name r \<notin> excl"
      using normalized_not_excluded [of p excl raws] by auto
  qed
  show ?thesis
    using a b success_sessions by blast
qed

text \<open>C6, on a first probe with Alice and Bob while Alice is excluded: only Bob's session is
  opened.\<close>

theorem exclusion_filters_current_witness:
  "accepted alice_excluded ''1.2.3.4'' 14567 two_probe \<and>
   normalize_players (ex_player_name alice_excluded) (rd_players two_probe) = [named ''Bob''] \<and>
   ''Bob'' \<notin> ex_player_name alice_excluded \<and>
   player_sessions (process_server_success ''1.2.3.4'' 14567 two_probe alice_excluded 20 empty_db)
     = [open_session 1 ''Bob'' ''bob'' 20]"
proof -
  have s: "\<And>sid. fold exec_stmt (session_stmts sid [] [named ''Bob''] 20) (player_sessions empty_db)
      = [open_session sid ''Bob'' ''bob'' 20]"
    by (simp add: stmts_shape diff_Bob_in index_Bob named_sel) (simp add: empty_db_def open_session_def)
  have b: "''Bob'' \<notin> ex_player_name alice_excluded"
    by (simp add: alice_excluded_def)
  show ?thesis
    using exclusion_filters_current [of "ex_player_name alice_excluded" "rd_players two_probe"
        1 "[]" 20 alice_excluded "''1.2.3.4''" 14567 two_probe empty_db]
      accepted_samples(3) [of "''1.2.3.4''" 14567] b
    by (simp add: normalize_alice returned_id_empty previous_empty s)
qed

text \<open>
  C6 as it is written fails: Alice is seen at 10, then excluded, then seen again at 20. The
  previous list of the second diff holds Alice, and her session is closed at 20.
\<close>

theorem excluded_name_closes_counterexample:
  "''Alice'' \<in> ex_player_name alice_excluded \<and>
   previous_players_of 1 (process_server_success ''1.2.3.4'' 14567 alice_probe no_exclusions 10 empty_db)
     = [named ''Alice''] \<and>
   player_sessions (process_server_success ''1.2.3.4'' 14567 alice_probe no_exclusions 10 empty_db)
     = [open_session 1 ''Alice'' ''alice'' 10] \<and>
   player_sessions (process_server_success ''1.2.3.4'' 14567 alice_probe alice_excluded 20
       (process_server_success ''1.2.3.4'' 14567 alice_probe no_exclusions 10 empty_db))
     = [(open_session 1 ''Alice'' ''alice'' 10)\<lparr>sess_leave_ts := Some 20\<rparr>]"
proof -
  let ?d1 = "process_server_success ''1.2.3.4'' 14567 alice_probe no_exclusions 10 empty_db"
  have id1: "returned_id ''1.2.3.4'' 14567 ?d1 = 1"
    by (simp add: success_returned_id [OF accepted_samples(1)] returned_id_empty)
  have prev: "previous_players_of (Suc 0) ?d1 = [named ''Alice'']"
    by (simp add: previous_players_of_def first_alice_probe new_snapshot_sel returned_id_empty)
      (simp add: new_snapshot_def normalize_alice)
  have two: "player_sessions (process_server_success ''1.2.3.4'' 14567 alice_probe alice_excluded 20 ?d1)
     = [(open_session 1 ''Alice'' ''alice'' 10)\<lparr>sess_leave_ts := Some 20\<rparr>]"
    by (simp add: success_sessions [OF accepted_samples(2)] id1 prev normalize_alice stmts_shape
        diff_Alice_out first_alice_probe)
      (simp add: open_session_def)
  show ?thesis
    using prev two first_alice_probe(1) [of "''1.2.3.4''" 14567]
    by (simp add: alice_excluded_def)
qed

section \<open>C7: malformed master-list entries\<close>

text \<open>
  C7. A body with one well-formed entry and one entry whose port is not numeric: the
  conversion of the second entry raises inside the comprehension, the handler of
  \<open>fetch_servers\<close> catches it, and the result is \<open>None\<close>, the value of a failed fetch,
  instead of the list of the first entry. Entries that are not lists of length 2 are
  dropped as the claim says, and a transport error gives \<open>None\<close>.
\<close>

theorem non_numeric_port_fails_fetch:
  "fetch_servers (Response 200 (Some bad_port_body)) = None \<and>
   fetch_servers (Response 200 (Some (JArr [JStr ''x'', JArr [JStr ''1.2.3.4''],
                                         JArr [JStr ''1.2.3.4'', JStr ''14567'']])))
     = Some [(JStr ''1.2.3.4'', 14567)] \<and>
   fetch_servers TransportError = None"
  by (simp add: fetch_servers_def bad_port_body_def py_int_14567 py_int_abc)

section \<open>C8: the querier\<close>

text \<open>
  C8. The first attempt goes to (ip, port) with half the configured timeout. A second
  attempt is made exactly when the first raised and the port is not 23000; it goes to
  (ip, 23000) with the same timeout. The result is the first status obtained, and \<open>None\<close>
  when every attempt raised. With port 23000 there is one attempt only.
\<close>

theorem query_server_fallback:
  "query_server cfg gs ip port = (res, attempts) \<Longrightarrow>
   (let t = SERVER_QUERY_TIMEOUT_S cfg / 2 in
      attempts = (ip, port, t) #
        (if gs 0 ip port t = None \<and> port \<noteq> 23000 then [(ip, 23000, t)] else []) \<and>
      res = (case gs 0 ip port t of
               Some status \<Rightarrow> Some status
             | None \<Rightarrow> if port \<noteq> 23000 then gs 1 ip 23000 t else None) \<and>
      (port = 23000 \<longrightarrow> attempts = [(ip, port, t)]))"
  by (auto simp: query_server_def Let_def split: option.splits if_splits)

text \<open>C8, on a network where only port 23000 answers, and on a dead server at port
  23000.\<close>

theorem query_server_fallback_witness:
  "query_server default_settings fallback_only ''1.2.3.4'' 14567
     = (Some ''status'', [(''1.2.3.4'', 14567, 2), (''1.2.3.4'', 23000, 2)]) \<and>
   query_server default_settings (\<lambda>k ip port t. None :: string option) ''1.2.3.4'' 23000
     = (None, [(''1.2.3.4'', 23000, 2)])"
proof -
  obtain r1 a1 where q1: "query_server default_settings fallback_only ''1.2.3.4'' 14567 = (r1, a1)"
    by (cases "query_server default_settings fallback_only ''1.2.3.4'' 14567")
  obtain r2 a2 where q2:
    "query_server default_settings (\<lambda>k ip port t. None :: string option) ''1.2.3.4'' 23000 = (r2, a2)"
    by (cases "query_server default_settings (\<lambda>k ip port t. None :: string option) ''1.2.3.4'' 23000")
  show ?thesis
    using query_server_fallback [OF q1] query_server_fallback [OF q2] q1 q2
    by (simp add: default_settings_def fallback_only_def Let_def)
qed

section \<open>C9: the failure counter\<close>

text \<open>
  C9. Over any run of failure ingestions every server row keeps its place, id and address,
  and its \<open>consecutive_failures\<close> does not decrease; a failure of a known address adds one
  to its count. A success ingestion that is not dropped by the pre-check leaves every row
  of its address with a count of 0, and such a row exists.
\<close>

theorem failures_monotone_reset:
  "failures_grow d (fail_all cfg evs d) \<and>
   (\<forall>found. lookup_server ip port d = Some found \<longrightarrow>
      lookup_server ip port (process_server_failure cfg ip port ts d) =
        Some (found\<lparr>srv_last_seen := ts,
                    srv_consecutive_failures := srv_consecutive_failures found + 1,
                    srv_status := (if srv_consecutive_failures found + 1 \<ge> OFFLINE_FAILURE_THRESHOLD cfg
                                   then Offline else srv_status found)\<rparr>)) \<and>
   (accepted ex ip port raw \<longrightarrow>
      (\<exists>r. lookup_server ip port (process_server_success ip port raw ex ts d) = Some r
            \<and> srv_consecutive_failures r = 0) \<and>
      (\<forall>r \<in> set (servers (process_server_success ip port raw ex ts d)).
          same_address ip port r \<longrightarrow> srv_consecutive_failures r = 0))"
  using grow_fail_all [of d cfg evs] failure_old_row [of ip port d _ cfg ts]
    success_lookup [of ex ip port raw ts d] success_resets_all [of ex ip port raw _ ts d]
  by blast

text \<open>C9, for two failures and for one success on a server with two failures.\<close>

theorem failures_monotone_reset_witness:
  "srv_consecutive_failures (servers dark_server ! 0) = 2 \<and>
   2 \<le> srv_consecutive_failures
          (servers (fail_all default_settings [(''1.2.3.4'', 14567, 40), (''5.6.7.8'', 14567, 41)] dark_server) ! 0) \<and>
   accepted no_exclusions ''1.2.3.4'' 14567 alice_probe \<and>
   (\<exists>r. lookup_server ''1.2.3.4'' 14567
           (process_server_success ''1.2.3.4'' 14567 alice_probe no_exclusions 50 dark_server) = Some r
         \<and> srv_consecutive_failures r = 0)"
proof -
  have a: "srv_consecutive_failures (servers dark_server ! 0) = 2" "0 < length (servers dark_server)"
    by (simp_all add: dark_server_def dark_row_def)
  show ?thesis
    using failures_monotone_reset [of dark_server default_settings
        "[(''1.2.3.4'', 14567, 40), (''5.6.7.8'', 14567, 41)]" "''1.2.3.4''" 14567 50
        no_exclusions alice_probe]
      a accepted_samples(1) [of "''1.2.3.4''" 14567]
    by (auto simp: failures_grow_def)
qed

section \<open>C10: records without a name\<close>

text \<open>
  C10. Records whose name is missing or empty take no part in the session transition: the
  statements sent, and so the table afterwards, are those of the two lists with such
  records removed; no such record is a value of the name index of either list; and every
  row of an insert has a non-empty \<open>player_name\<close> and a non-empty
  \<open>player_name_norm\<close>.
\<close>

theorem nameless_records_ignored:
  "session_stmts sid prev cur ts = session_stmts sid (filter has_name prev) (filter has_name cur) ts \<and>
   update_player_sessions sid prev cur ts d
     = update_player_sessions sid (filter has_name prev) (filter has_name cur) ts d \<and>
   (\<forall>p \<in> set prev. \<not> has_name p \<longrightarrow> p \<notin> snd ` set (build_index prev)) \<and>
   (\<forall>p \<in> set cur. \<not> has_name p \<longrightarrow> p \<notin> snd ` set (build_index cur)) \<and>
   (\<forall>rows. InsertSessions rows \<in> set (session_stmts sid prev cur ts) \<longrightarrow>
      (\<forall>r \<in> set rows. sess_player_name r \<noteq> [] \<and> sess_player_name_norm r \<noteq> []))"
proof -
  have rows: "\<forall>rows. InsertSessions rows \<in> set (session_stmts sid prev cur ts) \<longrightarrow>
      (\<forall>r \<in> set rows. sess_player_name r \<noteq> [] \<and> sess_player_name_norm r \<noteq> [])"
    using new_rows_content [of _ sid ts cur "joined_players prev cur"]
    by (auto simp: stmts_shape split: if_splits)
  have idx: "\<And>ps. \<forall>p \<in> set ps. \<not> has_name p \<longrightarrow> p \<notin> snd ` set (build_index ps)"
    using index_values_named by fastforce
  show ?thesis
    using rows idx [of prev] idx [of cur]
    by (simp add: stmts_filter update_player_sessions_def)
qed

text \<open>C10, with a record without name before Alice in the previous list and a record of
  empty name before Bob in the current list.\<close>

theorem nameless_records_ignored_witness:
  "\<not> has_name nameless \<and> \<not> has_name (named '''') \<and>
   nameless \<notin> snd ` set (build_index [nameless, named ''Alice'']) \<and>
   session_stmts 1 [nameless, named ''Alice''] [named '''', named ''Bob''] 20 =
     [UpdateLeave 20 1 [''alice''], InsertSessions [open_session 1 ''Bob'' ''bob'' 20]]"
proof -
  have h: "\<not> has_name nameless" "\<not> has_name (named '''')" "has_name (named ''Alice'')"
    "has_name (named ''Bob'')"
    by (simp_all add: has_name_def nameless_def named_sel)
  have s: "session_stmts 1 [named ''Alice''] [named ''Bob''] 20 =
     [UpdateLeave 20 1 [''alice''], InsertSessions [open_session 1 ''Bob'' ''bob'' 20]]"
    by (simp add: stmts_shape diff_Alice_Bob index_Bob named_sel open_session_def)
  show ?thesis
    using nameless_records_ignored [of 1 "[nameless, named ''Alice'']" "[named '''', named ''Bob'']" 20 empty_db]
      h s
    by simp
qed

end
